theory Spec2Isabelle
  imports Main "HOL-Library.Word" "HOL-Library.Sublist"
begin

unbundle bit_operations_syntax

section \<open>Strings of the runtime\<close>

text \<open>
  A JavaScript string is a sequence of 16-bit code units; the bytes that arrive from the
  network are 8-bit. \<open>js\<close> writes an ASCII literal as a JavaScript string.
\<close>

type_synonym byte = "8 word"
type_synonym code_unit = "16 word"
type_synonym jsstring = "code_unit list"

definition js :: "string \<Rightarrow> jsstring" where
  "js s = map of_char s"

definition utf8 :: "string \<Rightarrow> byte list" where
  "utf8 s = map of_char s"

definition newline :: code_unit where
  "newline = 0x0A"

text \<open>
  \<^verbatim>\<open>buffer.split("\n")\<close>: the pieces between the separators, in order. The result is never
  empty: a string without separator is the only piece, and a string that ends in the
  separator has the empty string as last piece.
\<close>

fun split_nl :: "jsstring \<Rightarrow> jsstring list" where
  "split_nl [] = [[]]"
| "split_nl (c # cs) =
     (if c = newline then [] # split_nl cs
      else (case split_nl cs of
              [] \<Rightarrow> [[c]]
            | l # ls \<Rightarrow> (c # l) # ls))"

text \<open>\<^verbatim>\<open>line.startsWith(p)\<close> and \<^verbatim>\<open>line.slice(n)\<close> for \<open>n \<ge> 0\<close>.\<close>

definition startsWith :: "jsstring \<Rightarrow> jsstring \<Rightarrow> bool" where
  "startsWith line p = (take (length p) line = p)"

definition slice :: "nat \<Rightarrow> jsstring \<Rightarrow> jsstring" where
  "slice n line = drop n line"

text \<open>
  \<^verbatim>\<open>String.prototype.trim\<close> removes the code units of the ECMAScript productions
  WhiteSpace and LineTerminator from both ends.
\<close>

definition is_white_space :: "code_unit \<Rightarrow> bool" where
  "is_white_space c =
     (c = 0x0009 \<or> c = 0x000A \<or> c = 0x000B \<or> c = 0x000C \<or> c = 0x000D \<or> c = 0x0020
      \<or> c = 0x00A0 \<or> c = 0x1680 \<or> (0x2000 \<le> c \<and> c \<le> 0x200A)
      \<or> c = 0x2028 \<or> c = 0x2029 \<or> c = 0x202F \<or> c = 0x205F \<or> c = 0x3000 \<or> c = 0xFEFF)"

definition trim :: "jsstring \<Rightarrow> jsstring" where
  "trim s = rev (dropWhile is_white_space (rev (dropWhile is_white_space s)))"

text \<open>The decimal digits of a number, as a template literal prints an integer.\<close>

fun decimal :: "nat \<Rightarrow> jsstring" where
  "decimal n =
     (if n < 10 then [of_nat (48 + n)]
      else decimal (n div 10) @ [of_nat (48 + n mod 10)])"

declare decimal.simps [simp del]

section \<open>TextDecoder\<close>

text \<open>
  \<^verbatim>\<open>new TextDecoder()\<close> is the UTF-8 decoder of the Encoding standard, in replacement
  mode and with the byte order mark removed. With \<^verbatim>\<open>{stream: true}\<close> it keeps its state
  between calls: an incomplete sequence at the end of a chunk is completed by the next
  chunk. The state is the one of the standard's UTF-8 decoder together with the flag
  "BOM seen". The consumer never makes the closing call without \<^verbatim>\<open>stream\<close>, so a sequence
  that is still incomplete when the stream ends yields no text.
\<close>

record text_decoder =
  code_point :: nat
  bytes_seen :: nat
  bytes_needed :: nat
  lower_boundary :: byte
  upper_boundary :: byte
  BOM_seen :: bool

definition new_TextDecoder :: text_decoder where
  "new_TextDecoder =
     \<lparr>code_point = 0, bytes_seen = 0, bytes_needed = 0,
      lower_boundary = 0x80, upper_boundary = 0xBF, BOM_seen = False\<rparr>"

definition reset_sequence :: "text_decoder \<Rightarrow> text_decoder" where
  "reset_sequence d =
     d\<lparr>code_point := 0, bytes_seen := 0, bytes_needed := 0,
       lower_boundary := 0x80, upper_boundary := 0xBF\<rparr>"

text \<open>
  One scalar value leaves the decoder: the first one is dropped when it is U+FEFF, every
  other one is written as one or two UTF-16 code units.
\<close>

definition utf16 :: "nat \<Rightarrow> jsstring" where
  "utf16 cp =
     (if cp < 0x10000 then [of_nat cp]
      else [of_nat (0xD800 + (cp - 0x10000) div 0x400),
            of_nat (0xDC00 + (cp - 0x10000) mod 0x400)])"

definition emit :: "text_decoder \<Rightarrow> nat \<Rightarrow> jsstring \<times> text_decoder" where
  "emit d cp =
     (if \<not> BOM_seen d then
        (if cp = 0xFEFF then [] else utf16 cp, d\<lparr>BOM_seen := True\<rparr>)
      else (utf16 cp, d))"

text \<open>A byte read while no sequence is open (bytes needed is 0).\<close>

definition lead_byte :: "text_decoder \<Rightarrow> byte \<Rightarrow> jsstring \<times> text_decoder" where
  "lead_byte d b =
     (if b \<le> 0x7F then emit d (unat b)
      else if 0xC2 \<le> b \<and> b \<le> 0xDF then
        ([], d\<lparr>bytes_needed := 1, code_point := unat (b AND 0x1F)\<rparr>)
      else if 0xE0 \<le> b \<and> b \<le> 0xEF then
        ([], d\<lparr>lower_boundary := (if b = 0xE0 then 0xA0 else lower_boundary d),
               upper_boundary := (if b = 0xED then 0x9F else upper_boundary d),
               bytes_needed := 2, code_point := unat (b AND 0x0F)\<rparr>)
      else if 0xF0 \<le> b \<and> b \<le> 0xF4 then
        ([], d\<lparr>lower_boundary := (if b = 0xF0 then 0x90 else lower_boundary d),
               upper_boundary := (if b = 0xF4 then 0x8F else upper_boundary d),
               bytes_needed := 3, code_point := unat (b AND 0x07)\<rparr>)
      else emit d 0xFFFD)"

text \<open>
  One byte through the decoder. A byte outside the boundaries of an open sequence ends
  the sequence with U+FFFD and is then read again as a first byte.
\<close>

definition decode_byte :: "text_decoder \<Rightarrow> byte \<Rightarrow> jsstring \<times> text_decoder" where
  "decode_byte d b =
     (if bytes_needed d = 0 then lead_byte d b
      else if b < lower_boundary d \<or> upper_boundary d < b then
        (let (t1, d1) = emit (reset_sequence d) 0xFFFD;
             (t2, d2) = lead_byte d1 b
         in (t1 @ t2, d2))
      else
        (let cp = code_point d * 64 + unat (b AND 0x3F);
             seen = bytes_seen d + 1
         in if seen \<noteq> bytes_needed d then
              ([], d\<lparr>lower_boundary := 0x80, upper_boundary := 0xBF,
                     code_point := cp, bytes_seen := seen\<rparr>)
            else emit (reset_sequence d) cp))"

text \<open>\<^verbatim>\<open>decoder.decode(value, { stream: true })\<close>: the text of one chunk and the new state.\<close>

fun decode :: "text_decoder \<Rightarrow> byte list \<Rightarrow> jsstring \<times> text_decoder" where
  "decode d [] = ([], d)"
| "decode d (b # bs) =
     (let (t1, d1) = decode_byte d b;
          (t2, d2) = decode d1 bs
      in (t1 @ t2, d2))"

section \<open>Values, exceptions and callbacks\<close>

text \<open>
  The values \<^verbatim>\<open>JSON.parse\<close> returns. A number is an IEEE double, kept as its 64 bits;
  nothing here computes with it. An object is the list of its own properties, each name
  once.
\<close>

type_synonym js_number = "64 word"

datatype json =
    JNull
  | JBool bool
  | JNum js_number
  | JStr jsstring
  | JArr "json list"
  | JObj "(jsstring \<times> json) list"

text \<open>
  What is thrown and caught: an object that is \<^verbatim>\<open>instanceof Error\<close>, with its name and
  message, or any other value. A \<^verbatim>\<open>DOMException\<close> is an Error object.
\<close>

datatype thrown =
    Error_object (name: jsstring) (message: jsstring)
  | Other_value

definition AbortError :: "jsstring \<Rightarrow> thrown" where
  "AbortError msg = Error_object (js ''AbortError'') msg"

definition TypeError :: "jsstring \<Rightarrow> thrown" where
  "TypeError msg = Error_object (js ''TypeError'') msg"

text \<open>
  \<^verbatim>\<open>parsed.event\<close>: reading a property of \<^verbatim>\<open>null\<close> throws a TypeError; a primitive or
  an array has no property of that name (\<^verbatim>\<open>undefined\<close>, here \<open>None\<close>); an object gives
  its own property.
\<close>

definition get_event :: "json \<Rightarrow> thrown + json option" where
  "get_event v =
     (case v of
        JNull \<Rightarrow> Inl (TypeError (js ''Cannot read properties of null''))
      | JObj props \<Rightarrow> Inr (map_of props (js ''event''))
      | _ \<Rightarrow> Inr None)"

text \<open>The calls the consumer makes to its three callbacks, in order.\<close>

datatype callback =
    is_OnEvent: OnEvent json
  | OnDone
  | OnError thrown

definition count_events :: "callback list \<Rightarrow> nat" where
  "count_events cbs = length (filter is_OnEvent cbs)"

section \<open>The response of \<^verbatim>\<open>fetch\<close>\<close>

text \<open>
  What the network delivers while the caller does not abort. The body of a response is
  read chunk by chunk; after the last chunk the next \<^verbatim>\<open>reader.read()\<close> either reports the
  end of the stream (\<^verbatim>\<open>done: true\<close>) or rejects (the transport has failed).
\<close>

datatype read_end =
    End_of_stream
  | Read_rejected thrown

datatype body_stream = Body (chunks: "byte list list") (ending: read_end)

datatype response = Response (status: nat) (body: "body_stream option")

datatype fetch_outcome =
    Fetch_rejected thrown
  | Fetch_resolved response

text \<open>\<^verbatim>\<open>res.ok\<close> is true for a status from 200 to 299.\<close>

definition ok :: "response \<Rightarrow> bool" where
  "ok res = (200 \<le> status res \<and> status res \<le> 299)"

section \<open>The caller's abort\<close>

text \<open>
  \<^verbatim>\<open>streamProcure\<close> returns its AbortController, and the caller may call
  \<^verbatim>\<open>ctrl.abort(reason)\<close> once, at one of these moments: while \<^verbatim>\<open>fetch\<close> is pending; while the
  read that follows the first \<open>n\<close> chunks is pending (a click on the Stop button of
  \<^verbatim>\<open>AgentStream\<close> comes at such a moment); or from inside its own \<^verbatim>\<open>onEvent\<close> callback, in
  the call number \<open>k\<close> (counted from 0). An abort from inside \<^verbatim>\<open>onDone\<close> or \<^verbatim>\<open>onError\<close>, or
  after the run has ended, changes nothing and is left out.

  From the abort on, the pending promise and every later \<^verbatim>\<open>fetch\<close> or \<^verbatim>\<open>reader.read()\<close>
  reject with the reason; without a reason that is a \<^verbatim>\<open>DOMException\<close> named AbortError.
  Chunks that the network would still have delivered are lost.
\<close>

datatype abort_moment =
    During_fetch
  | While_reading nat
  | In_onEvent nat

datatype abort_call = Abort (moment: abort_moment) (reason: "thrown option")

definition abort_rejection :: "thrown option \<Rightarrow> thrown" where
  "abort_rejection r =
     (case r of
        None \<Rightarrow> AbortError (js ''signal is aborted without reason'')
      | Some e \<Rightarrow> e)"

text \<open>
  Whether the signal is aborted when \<^verbatim>\<open>reader.read()\<close> is called and awaited after \<open>n_read\<close>
  chunks and \<open>n_events\<close> calls of \<^verbatim>\<open>onEvent\<close>, and the value the read then rejects with.
\<close>

definition aborted_by :: "abort_call option \<Rightarrow> nat \<Rightarrow> nat \<Rightarrow> thrown option" where
  "aborted_by abort n_read n_events =
     (case abort of
        None \<Rightarrow> None
      | Some a \<Rightarrow>
          (case moment a of
             During_fetch \<Rightarrow> Some (abort_rejection (reason a))
           | While_reading n \<Rightarrow>
               if n = n_read then Some (abort_rejection (reason a)) else None
           | In_onEvent k \<Rightarrow>
               if k < n_events then Some (abort_rejection (reason a)) else None))"

text \<open>\<^verbatim>\<open>await fetch(url, { ..., signal: ctrl.signal })\<close>.\<close>

definition fetch_with_signal :: "abort_call option \<Rightarrow> fetch_outcome \<Rightarrow> fetch_outcome" where
  "fetch_with_signal abort outcome =
     (case abort of
        Some (Abort During_fetch r) \<Rightarrow> Fetch_rejected (abort_rejection r)
      | _ \<Rightarrow> outcome)"

section \<open>streamProcure\<close>

text \<open>
  The body of the \<^verbatim>\<open>for (const line of lines)\<close> loop, for one line. \<^verbatim>\<open>JSON.parse\<close> is the
  parameter \<open>parse\<close>, with \<open>None\<close> for the SyntaxError it throws. The inner
  \<^verbatim>\<open>try\<close>/\<^verbatim>\<open>catch\<close> swallows that error and the TypeError of \<^verbatim>\<open>parsed.event\<close> alike.
  The callbacks are taken to return normally. The loop never looks at the signal: an
  abort from inside a callback does not end it.
\<close>

datatype line_result =
    Ignored
  | Done
  | Event json

definition handle_line :: "(jsstring \<Rightarrow> json option) \<Rightarrow> jsstring \<Rightarrow> line_result" where
  "handle_line parse line =
     (if startsWith line (js ''data: '') then
        (let raw = trim (slice 6 line) in
         if raw = [] then Ignored
         else (case parse raw of
                 None \<Rightarrow> Ignored
               | Some parsed \<Rightarrow>
                   (case get_event parsed of
                      Inl e \<Rightarrow> Ignored
                    | Inr ev \<Rightarrow>
                        if ev = Some (JStr (js ''done'')) then Done
                        else Event parsed)))
      else Ignored)"

text \<open>
  The \<^verbatim>\<open>for\<close> loop over the lines of one chunk: the callbacks it makes, and whether it
  left the function through \<^verbatim>\<open>return\<close>.
\<close>

fun process_lines :: "(jsstring \<Rightarrow> json option) \<Rightarrow> jsstring list \<Rightarrow> callback list \<times> bool" where
  "process_lines parse [] = ([], False)"
| "process_lines parse (line # rest) =
     (case handle_line parse line of
        Ignored \<Rightarrow> process_lines parse rest
      | Done \<Rightarrow> ([OnDone], True)
      | Event parsed \<Rightarrow>
          (let (cbs, returned) = process_lines parse rest
           in (OnEvent parsed # cbs, returned)))"

text \<open>The outer \<^verbatim>\<open>catch\<close>.\<close>

definition catch_handler :: "thrown \<Rightarrow> callback list" where
  "catch_handler e =
     (case e of
        Error_object n m \<Rightarrow> if n \<noteq> js ''AbortError'' then [OnError e] else []
      | Other_value \<Rightarrow> [])"

text \<open>
  The \<^verbatim>\<open>while (true)\<close> loop, one iteration for each result of \<^verbatim>\<open>reader.read()\<close>. The
  last piece of the split stays in the buffer; after the loop comes \<^verbatim>\<open>onDone()\<close>. The
  two counters are the chunks read and the calls of \<^verbatim>\<open>onEvent\<close> made so far; they only tell
  when the caller's abort takes effect.
\<close>

fun read_loop ::
  "(jsstring \<Rightarrow> json option) \<Rightarrow> abort_call option \<Rightarrow> text_decoder \<Rightarrow> jsstring \<Rightarrow> nat \<Rightarrow> nat
     \<Rightarrow> byte list list \<Rightarrow> read_end \<Rightarrow> callback list" where
  "read_loop parse abort decoder buffer n_read n_events [] fin =
     (case aborted_by abort n_read n_events of
        Some e \<Rightarrow> catch_handler e
      | None \<Rightarrow>
          (case fin of
             End_of_stream \<Rightarrow> [OnDone]
           | Read_rejected e \<Rightarrow> catch_handler e))"
| "read_loop parse abort decoder buffer n_read n_events (chunk # rest) fin =
     (case aborted_by abort n_read n_events of
        Some e \<Rightarrow> catch_handler e
      | None \<Rightarrow>
          (let (text, decoder') = decode decoder chunk;
               lines = split_nl (buffer @ text);
               buffer' = last lines;
               (cbs, returned) = process_lines parse (butlast lines)
           in if returned then cbs
              else cbs @ read_loop parse abort decoder' buffer' (Suc n_read)
                           (n_events + count_events cbs) rest fin))"

text \<open>
  The asynchronous body of \<^verbatim>\<open>streamProcure\<close>, from the caller's abort (if any) and what
  the network delivers to the calls of \<^verbatim>\<open>onEvent\<close>, \<^verbatim>\<open>onDone\<close> and \<^verbatim>\<open>onError\<close>. The arguments \<^verbatim>\<open>designId\<close> and
  \<^verbatim>\<open>budgetUsd\<close> only go into the request. A response without body, or with a status that
  is not \<^verbatim>\<open>ok\<close>, throws the Error that the outer \<^verbatim>\<open>catch\<close> receives.
\<close>

definition SSE_error :: "response \<Rightarrow> thrown" where
  "SSE_error res = Error_object (js ''Error'') (js ''SSE error: '' @ decimal (status res))"

definition streamProcure ::
  "(jsstring \<Rightarrow> json option) \<Rightarrow> abort_call option \<Rightarrow> fetch_outcome \<Rightarrow> callback list" where
  "streamProcure parse abort outcome =
     (case fetch_with_signal abort outcome of
        Fetch_rejected e \<Rightarrow> catch_handler e
      | Fetch_resolved res \<Rightarrow>
          (case body res of
             None \<Rightarrow> catch_handler (SSE_error res)
           | Some b \<Rightarrow>
               if \<not> ok res then catch_handler (SSE_error res)
               else read_loop parse abort new_TextDecoder [] 0 0 (chunks b) (ending b)))"

section \<open>Vocabulary for the properties of the stream\<close>

text \<open>
  The text a fresh decoder has produced once the bytes \<open>bs\<close> have gone through it, the
  lines of a text that are closed by a line feed, and what the loop body does with each
  closed line of a byte stream.
\<close>

definition decoded_text :: "byte list \<Rightarrow> jsstring" where
  "decoded_text bs = fst (decode new_TextDecoder bs)"

definition complete_lines :: "jsstring \<Rightarrow> jsstring list" where
  "complete_lines text = butlast (split_nl text)"

definition line_results :: "(jsstring \<Rightarrow> json option) \<Rightarrow> byte list \<Rightarrow> line_result list" where
  "line_results parse bs = map (handle_line parse) (complete_lines (decoded_text bs))"

text \<open>The results in front of the first \<open>Done\<close>, and the values of the events among results.\<close>

definition before_done :: "line_result list \<Rightarrow> line_result list" where
  "before_done rs = takeWhile (\<lambda>r. r \<noteq> Done) rs"

primrec event_values :: "line_result list \<Rightarrow> json list" where
  "event_values [] = []"
| "event_values (r # rs) =
     (case r of Event v \<Rightarrow> v # event_values rs | _ \<Rightarrow> event_values rs)"

text \<open>What follows the \<^verbatim>\<open>while\<close> loop when no \<open>done\<close> frame has ended the function.\<close>

fun after_loop :: "read_end \<Rightarrow> callback list" where
  "after_loop End_of_stream = [OnDone]"
| "after_loop (Read_rejected e) = catch_handler e"

text \<open>
  The calls made while the chunks \<open>cs\<close> are processed: the events in front of the first
  \<open>done\<close> frame, and \<open>onDone\<close> for that frame. \<open>events_delivered\<close> counts the calls of
  \<open>onEvent\<close> among them.
\<close>

definition delivered :: "(jsstring \<Rightarrow> json option) \<Rightarrow> byte list list \<Rightarrow> callback list" where
  "delivered parse cs =
     map OnEvent (event_values (before_done (line_results parse (concat cs))))
       @ (if Done \<in> set (line_results parse (concat cs)) then [OnDone] else [])"

definition events_delivered :: "(jsstring \<Rightarrow> json option) \<Rightarrow> byte list list \<Rightarrow> nat" where
  "events_delivered parse cs =
     length (event_values (before_done (line_results parse (concat cs))))"

text \<open>
  An abort is silent when the outer \<^verbatim>\<open>catch\<close> does nothing with its rejection: the abort has
  no reason, or the reason is no Error, or it is an Error named AbortError.
\<close>

definition silent_reason :: "thrown option \<Rightarrow> bool" where
  "silent_reason r =
     (case r of
        None \<Rightarrow> True
      | Some Other_value \<Rightarrow> True
      | Some (Error_object n m) \<Rightarrow> n = js ''AbortError'')"

text \<open>
  A frame is a marker line whose payload parses; a line is malformed when it has no marker
  or its payload is not JSON. An event of the agent is an object whose \<open>event\<close> property is
  a string other than \<open>done\<close>.
\<close>

definition is_frame :: "(jsstring \<Rightarrow> json option) \<Rightarrow> jsstring \<Rightarrow> json \<Rightarrow> bool" where
  "is_frame parse line v =
     (startsWith line (js ''data: '') \<and> trim (slice 6 line) \<noteq> []
      \<and> parse (trim (slice 6 line)) = Some v)"

definition malformed :: "(jsstring \<Rightarrow> json option) \<Rightarrow> jsstring \<Rightarrow> bool" where
  "malformed parse line =
     (\<not> startsWith line (js ''data: '') \<or> parse (trim (slice 6 line)) = None)"

definition is_agent_event :: "json \<Rightarrow> bool" where
  "is_agent_event v =
     (case v of
        JObj props \<Rightarrow>
          (case map_of props (js ''event'') of
             Some (JStr kind) \<Rightarrow> kind \<noteq> js ''done''
           | _ \<Rightarrow> False)
      | _ \<Rightarrow> False)"

section \<open>DesignViewer: polling a render job\<close>

text \<open>The snapshot of a render job that the backend returns (\<^verbatim>\<open>RenderJobResponse\<close>).\<close>

datatype render_status = St_pending | St_processing | St_done | St_failed

record RenderJobResponse =
  job_id :: jsstring
  design_id :: jsstring
  job_status :: render_status
  image_url :: "jsstring option"
  error :: "jsstring option"
  created_at :: jsstring

datatype tab = Tab_3d | Tab_render | Tab_agent

text \<open>
  The state of the component: its four \<^verbatim>\<open>useState\<close> cells, and what is under way outside
  of them: the timeout that the last run of the effect has set and that has not elapsed
  (with the job id its callback will ask for), the runs of \<^verbatim>\<open>startRender\<close> that await
  \<^verbatim>\<open>submitRender\<close>, and the status requests that have been sent and not yet answered.
\<close>

record viewer =
  renderJob :: "RenderJobResponse option"
  renderError :: "jsstring option"
  polling :: bool
  activeTab :: tab
  timer :: "jsstring option"
  submitting :: nat
  in_flight :: "jsstring list"


text \<open>
  The effect with dependencies \<^verbatim>\<open>[polling, renderJob]\<close>. Before it runs again the cleanup of
  its last run clears the timeout; a request that is already in flight is out of its
  reach. The first two branches are the guard \<^verbatim>\<open>if (!polling || !renderJob) return\<close>. When
  the effect calls \<^verbatim>\<open>setPolling(false)\<close> the component renders again and the effect, run once
  more, returns at that guard.
\<close>

definition poll_effect :: "viewer \<Rightarrow> viewer" where
  "poll_effect v =
     (case renderJob v of
        None \<Rightarrow> v\<lparr>timer := None\<rparr>
      | Some job \<Rightarrow>
          if \<not> polling v then v\<lparr>timer := None\<rparr>
          else if job_status job = St_done \<or> job_status job = St_failed then
            v\<lparr>polling := False, timer := None\<rparr>
          else v\<lparr>timer := Some (job_id job)\<rparr>)"








section \<open>Sample streams\<close>

text \<open>
  \<^verbatim>\<open>JSON.parse\<close> on the payloads of the sample frames; this fragment answers \<open>None\<close> on
  every other text. It is used to run the model on concrete streams only.
\<close>

definition thought_event :: json where
  "thought_event = JObj [(js ''event'', JStr (js ''thought'')), (js ''data'', JStr (js ''hi''))]"

definition result_event :: json where
  "result_event = JObj [(js ''event'', JStr (js ''result'')), (js ''data'', JStr (js ''ok''))]"

definition done_event :: json where
  "done_event = JObj [(js ''event'', JStr (js ''done'')), (js ''data'', JNull)]"

definition JSON_parse_fragment :: "jsstring \<Rightarrow> json option" where
  \<open>JSON_parse_fragment =
     map_of
       [(js ''{"event": "thought", "data": "hi"}'', thought_event),
        (js ''{"event": "result", "data": "ok"}'', result_event),
        (js ''{"event": "done", "data": null}'', done_event)]\<close>

definition thought_frame :: string where
  \<open>thought_frame = ''data: {"event": "thought", "data": "hi"}''\<close>

definition result_frame :: string where
  \<open>result_frame = ''data: {"event": "result", "data": "ok"}''\<close>

definition done_frame :: string where
  \<open>done_frame = ''data: {"event": "done", "data": null}''\<close>

text \<open>Streams of the samples: the chunks, as the reads deliver them.\<close>

definition split_done_stream :: "byte list list" where
  \<open>split_done_stream =
     [utf8 (thought_frame @ ''\<newline>\<newline>da''),
      utf8 (drop 2 done_frame @ ''\<newline>\<newline>'' @ result_frame @ ''\<newline>\<newline>'')]\<close>

definition up_to_done :: "byte list" where
  \<open>up_to_done = utf8 (thought_frame @ ''\<newline>\<newline>'' @ done_frame @ ''\<newline>'')\<close>

definition past_done :: "byte list" where
  \<open>past_done = utf8 (''\<newline>'' @ result_frame @ ''\<newline>\<newline>'')\<close>

definition noisy_stream :: "byte list list" where
  \<open>noisy_stream =
     [utf8 (thought_frame @ ''\<newline>\<newline>garbage\<newline>data: {oops\<newline>''),
      utf8 (result_frame @ ''\<newline>\<newline>'')]\<close>

definition open_stream :: "byte list list" where
  \<open>open_stream =
     [utf8 (thought_frame @ ''\<newline>''), utf8 (''\<newline>'' @ result_frame @ ''\<newline>\<newline>'')]\<close>

definition thought_only_stream :: "byte list list" where
  \<open>thought_only_stream = [utf8 (thought_frame @ ''\<newline>\<newline>'')]\<close>

definition unterminated_stream :: "byte list list" where
  \<open>unterminated_stream = [utf8 (thought_frame @ ''\<newline>\<newline>''), utf8 result_frame]\<close>

definition procure_stream :: "byte list list" where
  \<open>procure_stream =
     [utf8 (thought_frame @ ''\<newline>\<newline>''), utf8 (result_frame @ ''\<newline>\<newline>''),
      utf8 (done_frame @ ''\<newline>\<newline>'')]\<close>

definition coalesced_stream :: "byte list list" where
  \<open>coalesced_stream =
     [utf8 (thought_frame @ ''\<newline>\<newline>'' @ result_frame @ ''\<newline>\<newline>''),
      utf8 (result_frame @ ''\<newline>\<newline>'' @ done_frame @ ''\<newline>\<newline>'')]\<close>

definition single_chunk_stream :: "byte list list" where
  \<open>single_chunk_stream =
     [utf8 (thought_frame @ ''\<newline>\<newline>'' @ result_frame @ ''\<newline>\<newline>'' @ done_frame
            @ ''\<newline>\<newline>'')]\<close>

definition stop_error :: thrown where
  "stop_error = Error_object (js ''Error'') (js ''stopped by the user'')"

definition network_error :: thrown where
  "network_error = TypeError (js ''network error'')"







section \<open>Lines and chunks\<close>

lemma split_nl_not_Nil [simp]: "split_nl s \<noteq> []"
  by (induction s) (auto split: list.splits)

lemma split_nl_no_newline: "newline \<notin> set s \<Longrightarrow> split_nl s = [s]"
  by (induction s) auto

lemma last_split_nl_no_newline: "newline \<notin> set (last (split_nl s))"
  by (induction s) (auto split: list.splits)

lemma split_nl_append:
  "split_nl (a @ b) = butlast (split_nl a) @ split_nl (last (split_nl a) @ b)"
proof (induction a)
  case Nil
  show ?case by simp
next
  case (Cons c a)
  show ?case
  proof (cases "c = newline")
    case True
    with Cons show ?thesis by simp
  next
    case False
    obtain l ls where sa: "split_nl a = l # ls"
      by (cases "split_nl a") auto
    show ?thesis
    proof (cases ls)
      case Nil
      with sa False Cons show ?thesis by (simp split: list.splits)
    next
      case (Cons l' ls')
      with sa False Cons.IH show ?thesis by (simp split: list.splits)
    qed
  qed
qed

lemma complete_lines_append:
  "complete_lines (a @ b) = complete_lines a @ complete_lines (last (split_nl a) @ b)"
  unfolding complete_lines_def
  by (subst split_nl_append) (simp add: butlast_append)

lemma complete_lines_tail:
  assumes "newline \<notin> set t"
  shows "complete_lines (a @ t) = complete_lines a"
proof -
  have "newline \<notin> set (last (split_nl a) @ t)"
    using assms last_split_nl_no_newline [of a] by simp
  then have "complete_lines (last (split_nl a) @ t) = []"
    by (simp add: complete_lines_def split_nl_no_newline)
  then show ?thesis
    by (subst complete_lines_append) simp
qed

lemma decode_append:
  "decode d (a @ b) =
     (let (t1, d1) = decode d a; (t2, d2) = decode d1 b in (t1 @ t2, d2))"
  by (induction a arbitrary: d) (auto split: prod.splits)

lemma decoded_text_append:
  "decoded_text (a @ b) = decoded_text a @ fst (decode (snd (decode new_TextDecoder a)) b)"
  by (simp add: decoded_text_def decode_append split: prod.splits)

lemma line_results_append:
  "\<exists>rs. line_results parse (a @ b) = line_results parse a @ rs"
  unfolding line_results_def decoded_text_append
  by (subst complete_lines_append) simp

section \<open>The loops\<close>

lemma process_lines_append:
  "process_lines parse (xs @ ys) =
     (let (c1, r1) = process_lines parse xs in
      if r1 then (c1, True)
      else (let (c2, r2) = process_lines parse ys in (c1 @ c2, r2)))"
  by (induction xs) (auto split: prod.splits line_result.splits)

lemma process_lines_results:
  "process_lines parse ls =
     (map OnEvent (event_values (before_done (map (handle_line parse) ls)))
        @ (if Done \<in> set (map (handle_line parse) ls) then [OnDone] else []),
      Done \<in> set (map (handle_line parse) ls))"
  by (induction ls) (auto simp: before_done_def split: line_result.splits prod.splits)

lemma aborted_by_None [simp]: "aborted_by None n_read n_events = None"
  by (simp add: aborted_by_def)

lemma read_loop_concat:
  "newline \<notin> set buffer \<Longrightarrow>
   read_loop parse None d buffer n_read n_events cs fin =
     (let (cbs, returned) =
            process_lines parse (butlast (split_nl (buffer @ fst (decode d (concat cs)))))
      in if returned then cbs else cbs @ after_loop fin)"
proof (induction cs arbitrary: d buffer n_read n_events)
  case Nil
  then show ?case by (cases fin) (simp_all add: split_nl_no_newline)
next
  case (Cons c cs)
  obtain t1 d1 where c: "decode d c = (t1, d1)" by force
  obtain t2 d2 where cs: "decode d1 (concat cs) = (t2, d2)" by force
  have all: "fst (decode d (concat (c # cs))) = t1 @ t2"
    by (simp add: decode_append c cs)
  have sp: "split_nl (buffer @ t1 @ t2) =
      butlast (split_nl (buffer @ t1)) @ split_nl (last (split_nl (buffer @ t1)) @ t2)"
    using split_nl_append [of "buffer @ t1" t2] by simp
  have bl: "butlast (split_nl (buffer @ t1 @ t2)) =
      butlast (split_nl (buffer @ t1)) @ butlast (split_nl (last (split_nl (buffer @ t1)) @ t2))"
    by (simp add: sp butlast_append)
  have ih: "read_loop parse None d1 (last (split_nl (buffer @ t1))) m k cs fin =
     (let (cbs, returned) =
            process_lines parse (butlast (split_nl (last (split_nl (buffer @ t1)) @ t2)))
      in if returned then cbs else cbs @ after_loop fin)" for m k
    using Cons.IH [OF last_split_nl_no_newline, of d1 "buffer @ t1"] by (simp add: cs)
  show ?case
    unfolding all bl process_lines_append
    by (simp add: c ih Let_def split: prod.splits)
qed

lemma read_loop_results:
  "read_loop parse None new_TextDecoder [] n_read n_events cs fin =
     map OnEvent (event_values (before_done (line_results parse (concat cs))))
       @ (if Done \<in> set (line_results parse (concat cs)) then [OnDone] else after_loop fin)"
  by (simp add: read_loop_concat process_lines_results line_results_def complete_lines_def
      decoded_text_def)

lemma streamProcure_body:
  assumes "ok res" and "body res = Some (Body cs fin)"
  shows "streamProcure parse None (Fetch_resolved res) =
     map OnEvent (event_values (before_done (line_results parse (concat cs))))
       @ (if Done \<in> set (line_results parse (concat cs)) then [OnDone] else after_loop fin)"
  using assms by (simp add: streamProcure_def fetch_with_signal_def read_loop_results)

lemma count_OnDone_events [simp]: "count_list (map OnEvent vs) OnDone = 0"
  by (induction vs) auto

lemma count_events_append [simp]:
  "count_events (xs @ ys) = count_events xs + count_events ys"
  by (simp add: count_events_def)

lemma count_events_map [simp]: "count_events (map OnEvent vs) = length vs"
  by (induction vs) (simp_all add: count_events_def)

lemma count_events_catch [simp]: "count_events (catch_handler e) = 0"
  by (simp add: count_events_def catch_handler_def split: thrown.splits)

lemma count_events_OnDone [simp]: "count_events [OnDone] = 0"
  by (simp add: count_events_def)

lemma count_events_Nil [simp]: "count_events [] = 0"
  by (simp add: count_events_def)

lemma before_done_append_Done:
  "Done \<in> set rs \<Longrightarrow> before_done (rs @ rs') = before_done rs"
  by (simp add: before_done_def)

lemma before_done_no_Done: "Done \<notin> set rs \<Longrightarrow> before_done rs = rs"
  by (auto simp: before_done_def)

lemma event_values_append: "event_values (xs @ ys) = event_values xs @ event_values ys"
  by (induction xs) (auto split: line_result.splits)

lemma event_values_Ignored: "\<forall>r \<in> set rs. r = Ignored \<Longrightarrow> event_values rs = []"
  by (induction rs) auto

lemma handle_line_malformed: "malformed parse l \<Longrightarrow> handle_line parse l = Ignored"
  by (auto simp: malformed_def handle_line_def Let_def)

lemma handle_line_frame:
  "is_frame parse l v \<Longrightarrow> is_agent_event v \<Longrightarrow> handle_line parse l = Event v"
  by (auto simp: is_frame_def is_agent_event_def handle_line_def get_event_def Let_def
      split: json.splits option.splits)

lemma handle_line_Event:
  "handle_line parse l = Event v \<Longrightarrow> get_event v \<noteq> Inr (Some (JStr (js ''done'')))"
  by (auto simp: handle_line_def Let_def split: if_splits option.splits sum.splits)

lemma event_values_subset: "v \<in> set (event_values rs) \<Longrightarrow> Event v \<in> set rs"
  by (induction rs) (auto split: line_result.splits)

lemma OnEvent_catch_handler [simp]: "OnEvent v \<notin> set (catch_handler e)"
  by (auto simp: catch_handler_def split: thrown.splits)

lemma process_lines_OnEvent:
  "OnEvent v \<in> set (fst (process_lines parse ls)) \<Longrightarrow> \<exists>l. handle_line parse l = Event v"
  by (induction ls) (auto split: line_result.splits prod.splits)

lemma read_loop_OnEvent:
  "OnEvent v \<in> set (read_loop parse abort d buffer n_read n_events cs fin) \<Longrightarrow>
   \<exists>l. handle_line parse l = Event v"
proof (induction cs arbitrary: d buffer n_read n_events)
  case Nil
  then show ?case by (auto split: option.splits read_end.splits)
next
  case (Cons c cs)
  show ?case
  proof (cases "aborted_by abort n_read n_events")
    case (Some e)
    with Cons.prems show ?thesis by simp
  next
    case None
    obtain t1 d1 where c: "decode d c = (t1, d1)" by force
    obtain cbs returned
      where p: "process_lines parse (butlast (split_nl (buffer @ t1))) = (cbs, returned)"
      by force
    from Cons.prems None c p
    have "OnEvent v \<in> set cbs
        \<or> OnEvent v \<in> set (read_loop parse abort d1 (last (split_nl (buffer @ t1)))
              (Suc n_read) (n_events + count_events cbs) cs fin)"
      by (auto simp: Let_def split: if_splits)
    then show ?thesis
    proof
      assume "OnEvent v \<in> set cbs"
      with p have "OnEvent v \<in> set (fst (process_lines parse (butlast (split_nl (buffer @ t1)))))"
        by simp
      then show ?thesis by (rule process_lines_OnEvent)
    next
      assume "OnEvent v \<in> set (read_loop parse abort d1 (last (split_nl (buffer @ t1)))
              (Suc n_read) (n_events + count_events cbs) cs fin)"
      then show ?thesis by (rule Cons.IH)
    qed
  qed
qed

section \<open>Runs with an abort\<close>

text \<open>
  A run that is aborted is a run without abort on the chunks read before the abort takes
  effect, whose last read rejects with the reason.
\<close>

lemma read_loop_abort_reading:
  "n_read \<le> n \<Longrightarrow> n - n_read \<le> length cs \<Longrightarrow>
   read_loop parse (Some (Abort (While_reading n) r)) d buffer n_read n_events cs fin =
   read_loop parse None d buffer n_read n_events (take (n - n_read) cs)
     (Read_rejected (abort_rejection r))"
proof (induction cs arbitrary: d buffer n_read n_events)
  case Nil
  then show ?case by (simp add: aborted_by_def)
next
  case (Cons c cs)
  show ?case
  proof (cases "n = n_read")
    case True
    then show ?thesis by (simp add: aborted_by_def)
  next
    case False
    with Cons.prems have lt: "Suc n_read \<le> n" and len: "n - Suc n_read \<le> length cs"
      by simp_all
    from lt have "n - n_read = Suc (n - Suc n_read)"
      by simp
    then have tk: "take (n - n_read) (c # cs) = c # take (n - Suc n_read) cs"
      by simp
    have ab: "aborted_by (Some (Abort (While_reading n) r)) n_read n_events = None"
      using False by (simp add: aborted_by_def)
    show ?thesis
      unfolding tk using Cons.IH [OF lt len]
      by (simp add: ab Let_def split: prod.splits)
  qed
qed

lemma read_loop_abort_in_onEvent:
  "n < length cs \<Longrightarrow>
   n_events + count_events (read_loop parse None d buffer n_read n_events (take n cs)
      (Read_rejected Other_value)) \<le> k \<Longrightarrow>
   k < n_events + count_events (read_loop parse None d buffer n_read n_events
      (take (Suc n) cs) (Read_rejected Other_value)) \<Longrightarrow>
   read_loop parse (Some (Abort (In_onEvent k) r)) d buffer n_read n_events cs fin =
   read_loop parse None d buffer n_read n_events (take (Suc n) cs)
     (Read_rejected (abort_rejection r))"
proof (induction cs arbitrary: n d buffer n_read n_events)
  case Nil
  then show ?case by simp
next
  case (Cons c cs)
  let ?abort = "Some (Abort (In_onEvent k) r)"
  obtain t1 d1 where c: "decode d c = (t1, d1)" by force
  obtain cbs returned
    where p: "process_lines parse (butlast (split_nl (buffer @ t1))) = (cbs, returned)"
    by force
  let ?b = "last (split_nl (buffer @ t1))" and ?e = "n_events + count_events cbs"
  from Cons.prems(2) have "n_events \<le> k" by simp
  then have ab: "aborted_by ?abort n_read n_events = None"
    by (simp add: aborted_by_def)
  show ?case
  proof (cases returned)
    case True
    with c p ab show ?thesis by simp
  next
    case False
    have lhs: "read_loop parse ?abort d buffer n_read n_events (c # cs) fin =
        cbs @ read_loop parse ?abort d1 ?b (Suc n_read) ?e cs fin"
      using c p ab False by simp
    have unroll: "read_loop parse None d buffer n_read n_events (c # xs) e =
        cbs @ read_loop parse None d1 ?b (Suc n_read) ?e xs e" for xs e
      using c p False by simp
    show ?thesis
    proof (cases n)
      case 0
      have "read_loop parse None d buffer n_read n_events [c] (Read_rejected Other_value) = cbs"
        by (simp add: unroll catch_handler_def del: read_loop.simps(2))
      with 0 Cons.prems(3) have "k < ?e"
        by (simp del: read_loop.simps)
      then have "aborted_by ?abort (Suc n_read) ?e = Some (abort_rejection r)"
        by (simp add: aborted_by_def)
      then have "read_loop parse ?abort d1 ?b (Suc n_read) ?e cs fin =
          catch_handler (abort_rejection r)"
        by (cases cs) simp_all
      with 0 show ?thesis
        by (simp add: lhs unroll del: read_loop.simps(2))
    next
      case (Suc m)
      with Cons.prems have m: "m < length cs"
        and lo: "?e + count_events (read_loop parse None d1 ?b (Suc n_read) ?e (take m cs)
            (Read_rejected Other_value)) \<le> k"
        and hi: "k < ?e + count_events (read_loop parse None d1 ?b (Suc n_read) ?e
            (take (Suc m) cs) (Read_rejected Other_value))"
        by (simp_all add: unroll del: read_loop.simps)
      from Cons.IH [OF m lo hi] Suc show ?thesis
        by (simp add: lhs unroll del: read_loop.simps)
    qed
  qed
qed

lemma count_events_delivered:
  "count_events (read_loop parse None new_TextDecoder [] n_read n_events cs
      (Read_rejected Other_value)) = events_delivered parse cs"
  by (simp add: read_loop_results events_delivered_def catch_handler_def)

lemma streamProcure_abort_fetch:
  "streamProcure parse (Some (Abort During_fetch r)) outcome
     = catch_handler (abort_rejection r)"
  by (simp add: streamProcure_def fetch_with_signal_def)

lemma streamProcure_abort_reading:
  assumes "ok res" and "body res = Some (Body cs fin)" and "n \<le> length cs"
  shows "streamProcure parse (Some (Abort (While_reading n) r)) (Fetch_resolved res) =
     delivered parse (take n cs)
       @ (if Done \<in> set (line_results parse (concat (take n cs))) then []
          else catch_handler (abort_rejection r))"
  using assms read_loop_abort_reading [of 0 n cs parse r new_TextDecoder "[]" 0 fin]
  by (simp add: streamProcure_def fetch_with_signal_def read_loop_results delivered_def)

lemma streamProcure_abort_in_onEvent:
  assumes "ok res" and "body res = Some (Body cs fin)" and "n < length cs"
    and "events_delivered parse (take n cs) \<le> k"
    and "k < events_delivered parse (take (Suc n) cs)"
  shows "streamProcure parse (Some (Abort (In_onEvent k) r)) (Fetch_resolved res) =
     delivered parse (take (Suc n) cs)
       @ (if Done \<in> set (line_results parse (concat (take (Suc n) cs))) then []
          else catch_handler (abort_rejection r))"
proof -
  have "read_loop parse (Some (Abort (In_onEvent k) r)) new_TextDecoder [] 0 0 cs fin =
      read_loop parse None new_TextDecoder [] 0 0 (take (Suc n) cs)
        (Read_rejected (abort_rejection r))"
    using assms(3-5)
    by (intro read_loop_abort_in_onEvent) (simp_all only: count_events_delivered add_0)
  with assms(1,2) show ?thesis
    by (simp add: streamProcure_def fetch_with_signal_def read_loop_results delivered_def
        del: read_loop.simps)
qed

lemma catch_handler_silent:
  "silent_reason r \<Longrightarrow> catch_handler (abort_rejection r) = []"
  by (auto simp: silent_reason_def abort_rejection_def catch_handler_def AbortError_def
      split: option.splits thrown.splits)

lemma OnError_delivered [simp]: "OnError e \<notin> set (delivered parse cs)"
  by (auto simp: delivered_def)

section \<open>The polling loop\<close>










lemma in_flight_poll_effect [simp]: "in_flight (poll_effect v) = in_flight v"
  by (simp add: poll_effect_def split: option.splits)





section \<open>The sample streams, evaluated\<close>

lemmas stream_eval =
  utf8_def js_def newline_def decoded_text_def complete_lines_def line_results_def
  decode_byte_def lead_byte_def emit_def utf16_def new_TextDecoder_def reset_sequence_def
  handle_line_def startsWith_def slice_def trim_def is_white_space_def get_event_def
  JSON_parse_fragment_def thought_frame_def result_frame_def done_frame_def
  thought_event_def result_event_def done_event_def before_done_def
  split_done_stream_def noisy_stream_def open_stream_def thought_only_stream_def
  unterminated_stream_def up_to_done_def past_done_def procure_stream_def
  coalesced_stream_def single_chunk_stream_def


lemma split_done_results:
  "line_results JSON_parse_fragment (concat split_done_stream) =
     [Event thought_event, Ignored, Done, Ignored, Event result_event, Ignored]"
  by (simp add: stream_eval)

lemma noisy_lines:
  \<open>complete_lines (decoded_text (concat noisy_stream)) =
     js thought_frame # [[], js ''garbage'', js ''data: {oops''] @ js result_frame # [[]]\<close>
  by (simp add: stream_eval)

lemma open_results:
  "line_results JSON_parse_fragment (concat open_stream) =
     [Event thought_event, Ignored, Event result_event, Ignored]"
  by (simp add: stream_eval)

lemma thought_only_results:
  "line_results JSON_parse_fragment (concat thought_only_stream) = [Event thought_event, Ignored]"
  by (simp add: stream_eval)

lemma procure_first_results:
  "line_results JSON_parse_fragment (concat (take (Suc 0) procure_stream)) =
     [Event thought_event, Ignored]"
  by (simp add: stream_eval)

lemma coalesced_first_results:
  "line_results JSON_parse_fragment (concat (take (Suc 0) coalesced_stream)) =
     [Event thought_event, Ignored, Event result_event, Ignored]"
  by (simp add: stream_eval)

lemma coalesced_results:
  "line_results JSON_parse_fragment (concat (take (Suc (Suc 0)) coalesced_stream)) =
     [Event thought_event, Ignored, Event result_event, Ignored, Event result_event, Ignored,
      Done, Ignored]"
  by (simp add: stream_eval)

lemma single_chunk_results:
  "line_results JSON_parse_fragment (concat (take (Suc 0) single_chunk_stream)) =
     [Event thought_event, Ignored, Event result_event, Ignored, Done, Ignored]"
  by (simp add: stream_eval)

lemma no_results [simp]: "line_results parse [] = []"
  by (simp add: line_results_def complete_lines_def decoded_text_def)

lemma sample_lengths:
  "length procure_stream = 3" "length coalesced_stream = 2" "length single_chunk_stream = 1"
  by (simp_all add: procure_stream_def coalesced_stream_def single_chunk_stream_def)

section \<open>Properties of the stream consumer\<close>

text \<open>
  C1. However a byte stream is cut into chunks, also in the middle of a line or of a
  multi-byte character, the consumer makes the same calls, in the same order and with the
  same completion, as when the whole stream arrives as one chunk.
\<close>

theorem chunking_is_irrelevant:
  "streamProcure parse None (Fetch_resolved (Response st (Some (Body cs fin)))) =
   streamProcure parse None (Fetch_resolved (Response st (Some (Body [concat cs] fin))))"
  by (simp add: streamProcure_def fetch_with_signal_def ok_def SSE_error_def read_loop_results
      del: read_loop.simps)

theorem chunking_is_irrelevant_witness:
  "streamProcure JSON_parse_fragment None
     (Fetch_resolved (Response 200 (Some (Body split_done_stream End_of_stream))))
   = streamProcure JSON_parse_fragment None
     (Fetch_resolved (Response 200 (Some (Body [concat split_done_stream] End_of_stream))))
   \<and> length split_done_stream = 2"
  using chunking_is_irrelevant [of JSON_parse_fragment 200 split_done_stream End_of_stream]
  by (simp add: split_done_stream_def)

text \<open>
  C2. Once the bytes read so far hold a complete \<open>done\<close> frame, the consumer has delivered
  the events in front of the first such frame, calls \<open>onDone\<close> exactly once and stops:
  whatever bytes follow, however they are chunked and however the transport ends, no
  further call is made.
\<close>

theorem done_frame_stops_consumer:
  assumes "ok res" and "body res = Some (Body cs fin)"
    and "concat cs = before @ after"
    and "Done \<in> set (line_results parse before)"
  shows "streamProcure parse None (Fetch_resolved res) =
           map OnEvent (event_values (before_done (line_results parse before))) @ [OnDone]
         \<and> count_list (streamProcure parse None (Fetch_resolved res)) OnDone = 1"
proof -
  obtain rs where rs: "line_results parse (before @ after) = line_results parse before @ rs"
    using line_results_append by blast
  have "streamProcure parse None (Fetch_resolved res) =
      map OnEvent (event_values (before_done (line_results parse before))) @ [OnDone]"
    using assms by (simp add: streamProcure_body rs before_done_append_Done)
  then show ?thesis by simp
qed

theorem done_frame_stops_consumer_witness:
  "streamProcure JSON_parse_fragment None
     (Fetch_resolved (Response 200 (Some (Body split_done_stream (Read_rejected network_error)))))
   = [OnEvent thought_event, OnDone]"
proof -
  let ?res = "Response 200 (Some (Body split_done_stream (Read_rejected network_error)))"
  have 1: "ok ?res" by (simp add: ok_def)
  have 2: "body ?res = Some (Body split_done_stream (Read_rejected network_error))" by simp
  have 3: "concat split_done_stream = up_to_done @ past_done" by (simp add: stream_eval)
  have 4: "line_results JSON_parse_fragment up_to_done = [Event thought_event, Ignored, Done]"
    by (simp add: stream_eval)
  have 5: "Done \<in> set (line_results JSON_parse_fragment up_to_done)" by (simp add: 4)
  show ?thesis
    using done_frame_stops_consumer [OF 1 2 3 5] by (simp add: 4 before_done_def)
qed

text \<open>
  C3. Malformed lines between two valid frames, and after them, are discarded: when the
  stream closes the consumer has delivered exactly the two events, in order, then
  \<open>onDone\<close>, and has not called \<open>onError\<close>.
\<close>

theorem malformed_lines_are_discarded:
  assumes "ok res" and "body res = Some (Body cs End_of_stream)"
    and "complete_lines (decoded_text (concat cs)) = l1 # junk @ l2 # junk'"
    and "is_frame parse l1 v1" and "is_agent_event v1"
    and "is_frame parse l2 v2" and "is_agent_event v2"
    and "\<forall>l \<in> set junk. malformed parse l"
    and "\<forall>l \<in> set junk'. malformed parse l"
  shows "streamProcure parse None (Fetch_resolved res) = [OnEvent v1, OnEvent v2, OnDone]"
proof -
  let ?i = "map (handle_line parse) junk" and ?j = "map (handle_line parse) junk'"
  have i: "\<forall>r \<in> set ?i. r = Ignored" and j: "\<forall>r \<in> set ?j. r = Ignored"
    using assms(8,9) by (auto simp: handle_line_malformed)
  have rs: "line_results parse (concat cs) = Event v1 # ?i @ Event v2 # ?j"
    using assms(3-7) by (simp add: line_results_def handle_line_frame)
  have nd: "Done \<notin> set (line_results parse (concat cs))"
    using i j by (auto simp: rs)
  have ev: "event_values (line_results parse (concat cs)) = [v1, v2]"
    by (simp add: rs event_values_append event_values_Ignored [OF i]
        event_values_Ignored [OF j])
  show ?thesis
    using assms(1,2) nd by (simp add: streamProcure_body before_done_no_Done ev)
qed

theorem malformed_lines_are_discarded_witness:
  "streamProcure JSON_parse_fragment None
     (Fetch_resolved (Response 200 (Some (Body noisy_stream End_of_stream))))
   = [OnEvent thought_event, OnEvent result_event, OnDone]"
proof -
  let ?res = "Response 200 (Some (Body noisy_stream End_of_stream))"
  have 1: "ok ?res" by (simp add: ok_def)
  have 2: "body ?res = Some (Body noisy_stream End_of_stream)" by simp
  have 4: "is_frame JSON_parse_fragment (js thought_frame) thought_event"
    by (simp add: is_frame_def stream_eval)
  have 5: "is_agent_event thought_event"
    by (simp add: is_agent_event_def thought_event_def js_def)
  have 6: "is_frame JSON_parse_fragment (js result_frame) result_event"
    by (simp add: is_frame_def stream_eval)
  have 7: "is_agent_event result_event"
    by (simp add: is_agent_event_def result_event_def js_def)
  have 8: \<open>\<forall>l \<in> set [[], js ''garbage'', js ''data: {oops'']. malformed JSON_parse_fragment l\<close>
    by (simp add: malformed_def stream_eval)
  have 9: "\<forall>l \<in> set [[]]. malformed JSON_parse_fragment l"
    by (simp add: malformed_def stream_eval)
  show ?thesis
    by (rule malformed_lines_are_discarded [OF 1 2 noisy_lines 4 5 6 7 8 9])
qed

text \<open>
  C4, as the spec states it, has every close of the transport without a \<open>done\<close> frame end
  in \<open>onDone\<close>. When the transport fails, the pending read rejects and the outer \<^verbatim>\<open>catch\<close>
  takes over: after two events and a network error the consumer calls \<open>onError\<close> and
  never calls \<open>onDone\<close>.
\<close>

theorem network_failure_counterexample:
  "streamProcure JSON_parse_fragment None
     (Fetch_resolved (Response 200 (Some (Body open_stream (Read_rejected network_error)))))
   = [OnEvent thought_event, OnEvent result_event, OnError network_error]
   \<and> OnDone \<notin> set (streamProcure JSON_parse_fragment None
     (Fetch_resolved (Response 200 (Some (Body open_stream (Read_rejected network_error))))))"
  by (simp add: streamProcure_def fetch_with_signal_def ok_def read_loop_results open_results
      before_done_def catch_handler_def network_error_def TypeError_def js_def
      del: read_loop.simps)

text \<open>
  C4, as the code has it. No \<open>done\<close> frame has been parsed and the caller has not
  aborted. When the read reports the end of the stream, the consumer has delivered the
  events of all complete lines, then calls \<open>onDone\<close>, and never calls \<open>onError\<close>. When the
  read rejects with an Error that is not named AbortError, the consumer has delivered the
  same events, then calls \<open>onError\<close> with that Error, and never calls \<open>onDone\<close>.
\<close>

theorem stream_end_without_done:
  assumes "ok res" and "body res = Some (Body cs fin)"
    and "Done \<notin> set (line_results parse (concat cs))"
  shows "(fin = End_of_stream \<longrightarrow>
            streamProcure parse None (Fetch_resolved res) =
              map OnEvent (event_values (line_results parse (concat cs))) @ [OnDone]
            \<and> (\<forall>e. OnError e \<notin> set (streamProcure parse None (Fetch_resolved res))))
       \<and> (fin = Read_rejected (Error_object nm msg) \<and> nm \<noteq> js ''AbortError'' \<longrightarrow>
            streamProcure parse None (Fetch_resolved res) =
              map OnEvent (event_values (line_results parse (concat cs)))
                @ [OnError (Error_object nm msg)]
            \<and> OnDone \<notin> set (streamProcure parse None (Fetch_resolved res)))"
proof -
  have run: "streamProcure parse None (Fetch_resolved res) =
      map OnEvent (event_values (line_results parse (concat cs))) @ after_loop fin"
    using assms by (simp add: streamProcure_body before_done_no_Done)
  have closed: "fin = End_of_stream \<longrightarrow>
      streamProcure parse None (Fetch_resolved res) =
        map OnEvent (event_values (line_results parse (concat cs))) @ [OnDone]
      \<and> (\<forall>e. OnError e \<notin> set (streamProcure parse None (Fetch_resolved res)))"
    unfolding run by auto
  have failed: "fin = Read_rejected (Error_object nm msg) \<and> nm \<noteq> js ''AbortError'' \<longrightarrow>
      streamProcure parse None (Fetch_resolved res) =
        map OnEvent (event_values (line_results parse (concat cs)))
          @ [OnError (Error_object nm msg)]
      \<and> OnDone \<notin> set (streamProcure parse None (Fetch_resolved res))"
    unfolding run by (auto simp: catch_handler_def)
  from closed failed show ?thesis by (rule conjI)
qed

theorem stream_end_without_done_witness:
  "streamProcure JSON_parse_fragment None
     (Fetch_resolved (Response 200 (Some (Body open_stream End_of_stream))))
   = [OnEvent thought_event, OnEvent result_event, OnDone]
   \<and> streamProcure JSON_parse_fragment None
     (Fetch_resolved (Response 200 (Some (Body open_stream (Read_rejected network_error)))))
   = [OnEvent thought_event, OnEvent result_event, OnError network_error]"
proof -
  let ?closed = "Response 200 (Some (Body open_stream End_of_stream))"
  let ?failed = "Response 200 (Some (Body open_stream (Read_rejected network_error)))"
  have 1: "ok ?closed" "ok ?failed" by (simp_all add: ok_def)
  have 2: "body ?closed = Some (Body open_stream End_of_stream)"
    "body ?failed = Some (Body open_stream (Read_rejected network_error))" by simp_all
  have 3: "Done \<notin> set (line_results JSON_parse_fragment (concat open_stream))"
    by (simp add: open_results)
  have 4: "network_error = Error_object (js ''TypeError'') (js ''network error'')
      \<and> js ''TypeError'' \<noteq> js ''AbortError''"
    by (simp add: network_error_def TypeError_def js_def)
  show ?thesis
    using stream_end_without_done [OF 1(1) 2(1) 3, of "js ''TypeError''" "js ''network error''"]
      stream_end_without_done [OF 1(2) 2(2) 3, of "js ''TypeError''" "js ''network error''"] 4
    by (simp add: open_results)
qed

text \<open>
  C5, as the spec states it, asks for \<open>onDone\<close> and for no further events after an abort.
  The outer \<^verbatim>\<open>catch\<close> does nothing for an AbortError: aborted while it waits for the chunk
  after the \<open>thought\<close> frame, the consumer has called \<open>onEvent\<close> once and never calls
  \<open>onDone\<close>. And the loop over the lines never looks at the signal: aborted from inside
  the \<open>onEvent\<close> call for the \<open>thought\<close> frame, the consumer still delivers the \<open>result\<close>
  frame of the same chunk.
\<close>

theorem abort_after_thought_counterexample:
  "streamProcure JSON_parse_fragment (Some (Abort (While_reading 1) None))
     (Fetch_resolved (Response 200 (Some (Body procure_stream End_of_stream))))
   = [OnEvent thought_event]
   \<and> OnDone \<notin> set (streamProcure JSON_parse_fragment (Some (Abort (While_reading 1) None))
     (Fetch_resolved (Response 200 (Some (Body procure_stream End_of_stream)))))
   \<and> streamProcure JSON_parse_fragment (Some (Abort (In_onEvent 0) None))
     (Fetch_resolved (Response 200 (Some (Body coalesced_stream End_of_stream))))
   = [OnEvent thought_event, OnEvent result_event]"
proof -
  let ?p = "Response 200 (Some (Body procure_stream End_of_stream))"
  let ?c = "Response 200 (Some (Body coalesced_stream End_of_stream))"
  have silent: "catch_handler (abort_rejection None) = []"
    by (simp add: catch_handler_silent silent_reason_def)
  have p: "ok ?p" "body ?p = Some (Body procure_stream End_of_stream)"
    "1 \<le> length procure_stream"
    by (simp_all add: ok_def sample_lengths)
  have waiting: "streamProcure JSON_parse_fragment (Some (Abort (While_reading 1) None))
      (Fetch_resolved ?p) = [OnEvent thought_event]"
    using streamProcure_abort_reading [OF p, of JSON_parse_fragment None]
    by (simp add: procure_first_results delivered_def before_done_def silent)
  have c: "ok ?c" "body ?c = Some (Body coalesced_stream End_of_stream)"
    "0 < length coalesced_stream"
    "events_delivered JSON_parse_fragment (take 0 coalesced_stream) \<le> 0"
    "0 < events_delivered JSON_parse_fragment (take (Suc 0) coalesced_stream)"
    by (simp_all add: ok_def sample_lengths events_delivered_def coalesced_first_results
        before_done_def)
  have inside: "streamProcure JSON_parse_fragment (Some (Abort (In_onEvent 0) None))
      (Fetch_resolved ?c) = [OnEvent thought_event, OnEvent result_event]"
    using streamProcure_abort_in_onEvent [OF c, of None]
    by (simp add: coalesced_first_results delivered_def before_done_def silent)
  show ?thesis
    unfolding waiting inside by simp
qed

text \<open>
  C5, as the code has it. The caller aborts without a reason, no \<open>done\<close> frame has been
  parsed in the chunks processed before. Aborted while it waits for the chunk after the
  first \<open>n\<close>, the consumer has delivered the events of these chunks and makes no further
  call: no event of a later chunk, no \<open>onError\<close>, no \<open>onDone\<close>. Aborted from inside an
  \<open>onEvent\<close> call made for chunk \<open>n + 1\<close>, it still handles the remaining lines of that chunk
  (further events, and \<open>onDone\<close> at a \<open>done\<close> frame among them), and makes no call after
  them.
\<close>

theorem abort_before_done_frame:
  assumes "ok res" and "body res = Some (Body cs fin)"
    and "Done \<notin> set (line_results parse (concat (take n cs)))"
  shows "(n \<le> length cs \<longrightarrow>
            streamProcure parse (Some (Abort (While_reading n) None)) (Fetch_resolved res)
              = map OnEvent (event_values (line_results parse (concat (take n cs))))
            \<and> OnDone \<notin> set (streamProcure parse (Some (Abort (While_reading n) None))
                  (Fetch_resolved res))
            \<and> (\<forall>e. OnError e \<notin> set (streamProcure parse
                  (Some (Abort (While_reading n) None)) (Fetch_resolved res))))
       \<and> (n < length cs \<and> events_delivered parse (take n cs) \<le> k
            \<and> k < events_delivered parse (take (Suc n) cs) \<longrightarrow>
            streamProcure parse (Some (Abort (In_onEvent k) None)) (Fetch_resolved res)
              = delivered parse (take (Suc n) cs)
            \<and> (\<forall>e. OnError e \<notin> set (streamProcure parse
                  (Some (Abort (In_onEvent k) None)) (Fetch_resolved res))))"
proof -
  have silent: "catch_handler (abort_rejection None) = []"
    by (simp add: catch_handler_silent silent_reason_def)
  have waiting: "n \<le> length cs \<longrightarrow>
      streamProcure parse (Some (Abort (While_reading n) None)) (Fetch_resolved res)
        = map OnEvent (event_values (line_results parse (concat (take n cs))))"
    using assms
    by (simp add: streamProcure_abort_reading delivered_def before_done_no_Done silent)
  have inside: "n < length cs \<and> events_delivered parse (take n cs) \<le> k
        \<and> k < events_delivered parse (take (Suc n) cs) \<longrightarrow>
      streamProcure parse (Some (Abort (In_onEvent k) None)) (Fetch_resolved res)
        = delivered parse (take (Suc n) cs)"
    using assms(1,2) streamProcure_abort_in_onEvent [of res cs fin n parse k None]
    by (simp add: silent)
  from waiting inside show ?thesis by auto
qed

theorem abort_before_done_frame_witness:
  "streamProcure JSON_parse_fragment (Some (Abort (While_reading 1) None))
     (Fetch_resolved (Response 200 (Some (Body procure_stream End_of_stream))))
   = [OnEvent thought_event]
   \<and> streamProcure JSON_parse_fragment (Some (Abort (In_onEvent 0) None))
     (Fetch_resolved (Response 200 (Some (Body single_chunk_stream End_of_stream))))
   = [OnEvent thought_event, OnEvent result_event, OnDone]"
proof -
  let ?p = "Response 200 (Some (Body procure_stream End_of_stream))"
  let ?s = "Response 200 (Some (Body single_chunk_stream End_of_stream))"
  have 1: "ok ?p" "ok ?s" by (simp_all add: ok_def)
  have 2: "body ?p = Some (Body procure_stream End_of_stream)"
    "body ?s = Some (Body single_chunk_stream End_of_stream)" by simp_all
  have 3: "Done \<notin> set (line_results JSON_parse_fragment (concat (take 1 procure_stream)))"
    by (simp add: procure_first_results)
  have 4: "Done \<notin> set (line_results JSON_parse_fragment (concat (take 0 single_chunk_stream)))"
    by simp
  have 5: "1 \<le> length procure_stream" "0 < length single_chunk_stream"
    by (simp_all add: sample_lengths)
  have 6: "events_delivered JSON_parse_fragment (take 0 single_chunk_stream) \<le> 0
      \<and> 0 < events_delivered JSON_parse_fragment (take (Suc 0) single_chunk_stream)"
    by (simp add: events_delivered_def single_chunk_results before_done_def)
  have 7: "delivered JSON_parse_fragment (take (Suc 0) single_chunk_stream)
      = [OnEvent thought_event, OnEvent result_event, OnDone]"
    by (simp add: delivered_def single_chunk_results before_done_def)
  show ?thesis
    using abort_before_done_frame [OF 1(1) 2(1) 3, of 0]
      abort_before_done_frame [OF 1(2) 2(2) 4, of 0] 5 6
    by (simp add: procure_first_results 7)
qed

text \<open>
  C6, as the spec states it, has no \<open>onEvent\<close> after an abort and no \<open>onError\<close> for it.
  Aborted from inside its first \<open>onEvent\<close> call, the consumer still calls \<open>onEvent\<close> for
  the next frame of the chunk and \<open>onDone\<close> for the \<open>done\<close> frame in it. And an abort
  whose reason is an Error of the caller's own reaches \<open>onError\<close>.
\<close>

theorem abort_inside_onEvent_counterexample:
  "streamProcure JSON_parse_fragment (Some (Abort (In_onEvent 0) None))
     (Fetch_resolved (Response 200 (Some (Body single_chunk_stream End_of_stream))))
   = [OnEvent thought_event, OnEvent result_event, OnDone]
   \<and> streamProcure JSON_parse_fragment (Some (Abort (While_reading 1) (Some stop_error)))
     (Fetch_resolved (Response 200 (Some (Body procure_stream End_of_stream))))
   = [OnEvent thought_event, OnError stop_error]"
proof -
  let ?s = "Response 200 (Some (Body single_chunk_stream End_of_stream))"
  let ?p = "Response 200 (Some (Body procure_stream End_of_stream))"
  have s: "ok ?s" "body ?s = Some (Body single_chunk_stream End_of_stream)"
    "0 < length single_chunk_stream"
    "events_delivered JSON_parse_fragment (take 0 single_chunk_stream) \<le> 0"
    "0 < events_delivered JSON_parse_fragment (take (Suc 0) single_chunk_stream)"
    by (simp_all add: ok_def sample_lengths events_delivered_def single_chunk_results
        before_done_def del: take_all_iff take_all)
  have inside: "streamProcure JSON_parse_fragment (Some (Abort (In_onEvent 0) None))
      (Fetch_resolved ?s) = [OnEvent thought_event, OnEvent result_event, OnDone]"
    using streamProcure_abort_in_onEvent [OF s, of None]
    by (simp add: delivered_def single_chunk_results before_done_def)
  have reason: "catch_handler (abort_rejection (Some stop_error)) = [OnError stop_error]"
    by (simp add: catch_handler_def abort_rejection_def stop_error_def js_def)
  have p: "ok ?p" "body ?p = Some (Body procure_stream End_of_stream)"
    "1 \<le> length procure_stream"
    by (simp_all add: ok_def sample_lengths)
  have waiting: "streamProcure JSON_parse_fragment
      (Some (Abort (While_reading 1) (Some stop_error))) (Fetch_resolved ?p)
      = [OnEvent thought_event, OnError stop_error]"
    using streamProcure_abort_reading [OF p, of JSON_parse_fragment "Some stop_error"]
    by (simp add: procure_first_results delivered_def before_done_def reason)
  show ?thesis
    unfolding waiting inside by simp
qed

text \<open>
  C6, as the code has it. After an abort no further chunk is read. Aborted while \<open>fetch\<close>
  is pending, the consumer makes no call for any data. Aborted while it waits for the
  chunk after the first \<open>n\<close>, it has made the calls of these chunks and no \<open>onEvent\<close>
  follows. Aborted from inside an \<open>onEvent\<close> call made for chunk \<open>n + 1\<close>, it makes the
  calls for the remaining lines of that chunk and none for a later chunk. Unless a \<open>done\<close>
  frame has ended the run, the rejection then reaches the outer \<^verbatim>\<open>catch\<close>: \<open>onError\<close> is not
  called when the abort has no reason (or a reason that is no Error, or an Error named
  AbortError), and is called with the reason otherwise.
\<close>

theorem abort_stops_reading:
  assumes "ok res" and "body res = Some (Body cs fin)"
  shows "streamProcure parse (Some (Abort During_fetch r)) outcome
           = catch_handler (abort_rejection r)
       \<and> (n \<le> length cs \<longrightarrow>
            streamProcure parse (Some (Abort (While_reading n) r)) (Fetch_resolved res)
              = delivered parse (take n cs)
                  @ (if Done \<in> set (line_results parse (concat (take n cs))) then []
                     else catch_handler (abort_rejection r)))
       \<and> (n < length cs \<and> events_delivered parse (take n cs) \<le> k
            \<and> k < events_delivered parse (take (Suc n) cs) \<longrightarrow>
            streamProcure parse (Some (Abort (In_onEvent k) r)) (Fetch_resolved res)
              = delivered parse (take (Suc n) cs)
                  @ (if Done \<in> set (line_results parse (concat (take (Suc n) cs))) then []
                     else catch_handler (abort_rejection r)))
       \<and> (silent_reason r \<longrightarrow> catch_handler (abort_rejection r) = [])
       \<and> (\<not> silent_reason r \<longrightarrow>
            catch_handler (abort_rejection r) = [OnError (abort_rejection r)])"
proof -
  have pending: "streamProcure parse (Some (Abort During_fetch r)) outcome
      = catch_handler (abort_rejection r)"
    by (rule streamProcure_abort_fetch)
  have waiting: "n \<le> length cs \<longrightarrow>
      streamProcure parse (Some (Abort (While_reading n) r)) (Fetch_resolved res)
        = delivered parse (take n cs)
            @ (if Done \<in> set (line_results parse (concat (take n cs))) then []
               else catch_handler (abort_rejection r))"
    using assms streamProcure_abort_reading [of res cs fin n parse r] by blast
  have inside: "n < length cs \<and> events_delivered parse (take n cs) \<le> k
        \<and> k < events_delivered parse (take (Suc n) cs) \<longrightarrow>
      streamProcure parse (Some (Abort (In_onEvent k) r)) (Fetch_resolved res)
        = delivered parse (take (Suc n) cs)
            @ (if Done \<in> set (line_results parse (concat (take (Suc n) cs))) then []
               else catch_handler (abort_rejection r))"
    using assms streamProcure_abort_in_onEvent [of res cs fin n parse k r] by blast
  have silent: "silent_reason r \<longrightarrow> catch_handler (abort_rejection r) = []"
    by (simp add: catch_handler_silent)
  have loud: "\<not> silent_reason r \<longrightarrow>
      catch_handler (abort_rejection r) = [OnError (abort_rejection r)]"
    by (auto simp: silent_reason_def abort_rejection_def catch_handler_def
        split: option.splits thrown.splits)
  from pending waiting inside silent loud show ?thesis
    by (intro conjI)
qed

theorem abort_stops_reading_witness:
  "streamProcure JSON_parse_fragment (Some (Abort During_fetch None))
     (Fetch_resolved (Response 200 (Some (Body coalesced_stream End_of_stream)))) = []
   \<and> streamProcure JSON_parse_fragment (Some (Abort (While_reading 1) None))
     (Fetch_resolved (Response 200 (Some (Body coalesced_stream End_of_stream))))
   = [OnEvent thought_event, OnEvent result_event]
   \<and> streamProcure JSON_parse_fragment (Some (Abort (In_onEvent 1) None))
     (Fetch_resolved (Response 200 (Some (Body coalesced_stream End_of_stream))))
   = [OnEvent thought_event, OnEvent result_event]
   \<and> streamProcure JSON_parse_fragment (Some (Abort (While_reading 1) (Some stop_error)))
     (Fetch_resolved (Response 200 (Some (Body coalesced_stream End_of_stream))))
   = [OnEvent thought_event, OnEvent result_event, OnError stop_error]"
proof -
  let ?res = "Response 200 (Some (Body coalesced_stream End_of_stream))"
  have 1: "ok ?res" by (simp add: ok_def)
  have 2: "body ?res = Some (Body coalesced_stream End_of_stream)" by simp
  have 3: "Suc 0 \<le> length coalesced_stream" "0 < length coalesced_stream"
    by (simp_all add: sample_lengths)
  have 4: "events_delivered JSON_parse_fragment (take 0 coalesced_stream) \<le> 1
      \<and> 1 < events_delivered JSON_parse_fragment (take (Suc 0) coalesced_stream)"
    by (simp add: events_delivered_def coalesced_first_results before_done_def)
  have 5: "delivered JSON_parse_fragment (take (Suc 0) coalesced_stream)
      = [OnEvent thought_event, OnEvent result_event]"
    by (simp add: delivered_def coalesced_first_results before_done_def)
  have 6: "Done \<notin> set (line_results JSON_parse_fragment (concat (take (Suc 0) coalesced_stream)))"
    by (simp add: coalesced_first_results)
  have 7: "silent_reason None" "\<not> silent_reason (Some stop_error)"
    "abort_rejection (Some stop_error) = stop_error"
    by (simp_all add: silent_reason_def stop_error_def abort_rejection_def js_def)
  show ?thesis
    using abort_stops_reading
        [OF 1 2, of JSON_parse_fragment None "Fetch_resolved ?res" "Suc 0" 1]
      abort_stops_reading [OF 1 2, of JSON_parse_fragment None "Fetch_resolved ?res" 0 1]
      abort_stops_reading [OF 1 2, of JSON_parse_fragment "Some stop_error" "Fetch_resolved ?res" "Suc 0" 1]
      3 4 5 6 7
    by simp
qed

text \<open>
  C7. A response whose status is not from 200 to 299 is a hard failure: no frame is read,
  neither \<open>onEvent\<close> nor \<open>onDone\<close> is called, and \<open>onError\<close> is called once, with an Error
  whose message carries the status.
\<close>

theorem non_2xx_is_hard_failure:
  assumes "status res < 200 \<or> 299 < status res"
  shows "streamProcure parse None (Fetch_resolved res) =
           [OnError (Error_object (js ''Error'') (js ''SSE error: '' @ decimal (status res)))]"
proof -
  have "catch_handler (SSE_error res) = [OnError (SSE_error res)]"
    by (simp add: catch_handler_def SSE_error_def js_def)
  with assms show ?thesis
    by (auto simp: streamProcure_def fetch_with_signal_def ok_def SSE_error_def
        split: option.splits)
qed

theorem non_2xx_is_hard_failure_witness:
  "streamProcure JSON_parse_fragment None
     (Fetch_resolved (Response 503 (Some (Body open_stream End_of_stream))))
   = [OnError (Error_object (js ''Error'') (js ''SSE error: 503''))]"
proof -
  let ?res = "Response 503 (Some (Body open_stream End_of_stream))"
  have 1: "status ?res < 200 \<or> 299 < status ?res" by simp
  have 2: "decimal 503 = js ''503''" by (simp add: decimal.simps js_def)
  show ?thesis
    using non_2xx_is_hard_failure [OF 1, of JSON_parse_fragment] by (simp add: 2 js_def)
qed

section \<open>Properties of the polling loop\<close>




section \<open>Further properties of the stream consumer\<close>

text \<open>
  C9. No value handed to \<open>onEvent\<close> has the \<open>event\<close> property \<open>"done"\<close>, whatever \<open>fetch\<close>
  and the stream deliver and whenever the caller aborts.
\<close>

theorem done_is_never_an_event:
  assumes "OnEvent v \<in> set (streamProcure parse abort outcome)"
  shows "get_event v \<noteq> Inr (Some (JStr (js ''done'')))"
proof -
  have "\<exists>l. handle_line parse l = Event v"
  proof (cases "fetch_with_signal abort outcome")
    case (Fetch_rejected e)
    with assms show ?thesis by (simp add: streamProcure_def)
  next
    case (Fetch_resolved res)
    with assms obtain b
      where "OnEvent v \<in> set (read_loop parse abort new_TextDecoder [] 0 0 (chunks b) (ending b))"
      by (auto simp: streamProcure_def split: option.splits if_splits)
    then show ?thesis by (rule read_loop_OnEvent)
  qed
  then obtain l where "handle_line parse l = Event v" ..
  then show ?thesis by (rule handle_line_Event)
qed

theorem done_is_never_an_event_witness:
  "OnEvent thought_event \<in> set (streamProcure JSON_parse_fragment None
      (Fetch_resolved (Response 200 (Some (Body split_done_stream End_of_stream)))))
   \<and> get_event thought_event \<noteq> Inr (Some (JStr (js ''done'')))"
proof -
  let ?out = "Fetch_resolved (Response 200 (Some (Body split_done_stream End_of_stream)))"
  have 1: "OnEvent thought_event \<in> set (streamProcure JSON_parse_fragment None ?out)"
    by (simp add: streamProcure_def fetch_with_signal_def ok_def read_loop_results
        split_done_results before_done_def del: read_loop.simps)
  show ?thesis
    using done_is_never_an_event [OF 1] 1 by simp
qed

text \<open>
  C10. The text after the last line feed is never handed to the parser: a stream that ends
  in an unterminated line, be it a well-formed frame, leads to the same calls as the stream
  without that line.
\<close>

theorem unterminated_tail_is_dropped:
  assumes "decoded_text (concat cs) = decoded_text (concat cs') @ tail"
    and "newline \<notin> set tail"
  shows "streamProcure parse None (Fetch_resolved (Response st (Some (Body cs fin)))) =
         streamProcure parse None (Fetch_resolved (Response st (Some (Body cs' fin))))"
proof -
  have "line_results parse (concat cs) = line_results parse (concat cs')"
    using assms by (simp add: line_results_def complete_lines_tail)
  then show ?thesis
    by (simp add: streamProcure_def fetch_with_signal_def ok_def SSE_error_def
        read_loop_results del: read_loop.simps)
qed

theorem unterminated_tail_is_dropped_witness:
  "streamProcure JSON_parse_fragment None
     (Fetch_resolved (Response 200 (Some (Body unterminated_stream End_of_stream))))
   = [OnEvent thought_event, OnDone]"
proof -
  have 1: "decoded_text (concat unterminated_stream) =
      decoded_text (concat thought_only_stream) @ js result_frame"
    by (simp add: stream_eval)
  have 2: "newline \<notin> set (js result_frame)"
    by (simp add: stream_eval)
  have 3: "streamProcure JSON_parse_fragment None
      (Fetch_resolved (Response 200 (Some (Body thought_only_stream End_of_stream))))
    = [OnEvent thought_event, OnDone]"
    by (simp add: streamProcure_def fetch_with_signal_def ok_def read_loop_results
        thought_only_results before_done_def del: read_loop.simps)
  show ?thesis
    using unterminated_tail_is_dropped [OF 1 2, of JSON_parse_fragment 200 End_of_stream]
    by (simp add: 3)
qed

end
